theory Spec2Isabelle
  imports Main "HOL-Library.Multiset" "HOL-Library.AList" "HOL-Library.Sublist"
begin

section \<open>The growth-mindset application: store, metrics and identity\<close>

text \<open>
  The embedding follows \<^verbatim>\<open>growth_mindset.py\<close>. Calendar dates
  (\<^verbatim>\<open>datetime.date\<close>) are their proleptic Gregorian ordinals, so that
  \<^verbatim>\<open>a - b == timedelta(days=1)\<close> is \<open>a - b = 1\<close> on \<open>int\<close>. The clock
  (\<^verbatim>\<open>datetime.date.today()\<close>) and the library functions
  \<^verbatim>\<open>date.fromisoformat\<close>, \<^verbatim>\<open>date.isoformat\<close>, \<^verbatim>\<open>json.load\<close> and
  \<^verbatim>\<open>json.dump\<close> are parameters of the functions that call them.
\<close>

subsection \<open>Exceptions\<close>

datatype error =
    FileNotFoundError
  | JSONDecodeError
  | UnicodeDecodeError
  | KeyError
  | TypeError
  | ValueError

subsection \<open>Metrics: \<^verbatim>\<open>calculate_streak\<close>\<close>

text \<open>
  \<^verbatim>\<open>[datetime.date.fromisoformat(d) for d in dates]\<close>: the comprehension raises
  ValueError at the first string that is not a date.
\<close>

fun parse_dates :: "(string \<Rightarrow> int option) \<Rightarrow> string list \<Rightarrow> error + int list" where
  "parse_dates fromisoformat [] = Inr []"
| "parse_dates fromisoformat (d # ds) =
     (case fromisoformat d of
        None \<Rightarrow> Inl ValueError
      | Some x \<Rightarrow>
          (case parse_dates fromisoformat ds of
             Inl e \<Rightarrow> Inl e
           | Inr xs \<Rightarrow> Inr (x # xs)))"

text \<open>
  The loop \<^verbatim>\<open>for date in reversed(sorted_dates)\<close> with its two variables
  \<^verbatim>\<open>current_date\<close> and \<^verbatim>\<open>streak\<close>: \<^verbatim>\<open>continue\<close> is the first branch,
  \<^verbatim>\<open>break\<close> the last.
\<close>

fun streak_loop :: "int \<Rightarrow> int \<Rightarrow> int list \<Rightarrow> int" where
  "streak_loop current_date streak [] = streak"
| "streak_loop current_date streak (date # rest) =
     (if date = current_date then streak_loop current_date streak rest
      else if current_date - date = 1 then streak_loop date (streak + 1) rest
      else streak)"

definition calculate_streak :: "(string \<Rightarrow> int option) \<Rightarrow> int \<Rightarrow> string list \<Rightarrow> error + int" where
  "calculate_streak fromisoformat today dates =
     (if dates = [] then Inr 0
      else
        (case parse_dates fromisoformat dates of
           Inl e \<Rightarrow> Inl e
         | Inr parsed \<Rightarrow> Inr (streak_loop today 1 (rev (sort parsed)))))"

text \<open>
  The reading of the specification's sentence on a run that touches neither today nor
  yesterday: the scan starts at the most recent supplied date, which counts 1 once it
  is matched, and walks backward from there.
\<close>

definition spec_last_run :: "int list \<Rightarrow> int" where
  "spec_last_run ds =
     (case rev (sort ds) of
        [] \<Rightarrow> 0
      | newest # rest \<Rightarrow> streak_loop newest 1 rest)"

subsection \<open>JSON values\<close>

text \<open>
  The values \<^verbatim>\<open>json.load\<close> returns: \<^verbatim>\<open>None\<close>, booleans, integers, strings,
  lists and dicts with string keys. A dict is an association list in insertion order;
  floating-point numbers are left out.
\<close>

datatype json =
    JNull
  | JBool bool
  | JNum int
  | JStr string
  | JArr "json list"
  | JObj "(string \<times> json) list"

text \<open>\<^verbatim>\<open>value[k]\<close> with a string \<open>k\<close>: only a dict can be read with it.\<close>

fun get_item :: "json \<Rightarrow> string \<Rightarrow> error + json" where
  "get_item (JObj kvs) k = (case map_of kvs k of None \<Rightarrow> Inl KeyError | Some v \<Rightarrow> Inr v)"
| "get_item _ k = Inl TypeError"

text \<open>\<^verbatim>\<open>value[k] = v\<close>: a present key keeps its place, a new key goes last.\<close>

fun set_item :: "json \<Rightarrow> string \<Rightarrow> json \<Rightarrow> error + json" where
  "set_item (JObj kvs) k v = Inr (JObj (AList.update k v kvs))"
| "set_item _ k v = Inl TypeError"

text \<open>
  \<^verbatim>\<open>k in value\<close> with a string \<open>k\<close>: a key of a dict, an element of a list, a
  substring of a string.
\<close>

fun contains :: "json \<Rightarrow> string \<Rightarrow> error + bool" where
  "contains (JObj kvs) k = Inr (k \<in> set (map fst kvs))"
| "contains (JArr xs) k = Inr (JStr k \<in> set xs)"
| "contains (JStr s) k = Inr (sublist k s)"
| "contains _ k = Inl TypeError"

text \<open>
  \<^verbatim>\<open>for x in value\<close>: the elements of a list, the keys of a dict, the characters
  of a string.
\<close>

fun py_iter :: "json \<Rightarrow> error + json list" where
  "py_iter (JArr xs) = Inr xs"
| "py_iter (JObj kvs) = Inr (map (\<lambda>kv. JStr (fst kv)) kvs)"
| "py_iter (JStr s) = Inr (map (\<lambda>c. JStr [c]) s)"
| "py_iter _ = Inl TypeError"

subsection \<open>Store: \<^verbatim>\<open>load_data\<close> and \<^verbatim>\<open>save_data\<close>\<close>

text \<open>
  The file \<^verbatim>\<open>app_data.json\<close> is \<open>None\<close> when it does not exist and \<open>Some\<close> of
  its content otherwise; the content is of any type \<open>'f\<close>, read by \<^verbatim>\<open>json.load\<close>
  and written by \<^verbatim>\<open>json.dump\<close>. Other failures of the file system are not modelled.
\<close>

definition empty_document :: json where
  "empty_document =
     JObj [(''journal_entries'', JArr []),
           (''completed_challenges'', JArr []),
           (''community_posts'', JArr []),
           (''users'', JObj [])]"

text \<open>
  The \<^verbatim>\<open>try\<close> block opens the file and parses it; the \<^verbatim>\<open>except\<close> clause
  catches FileNotFoundError and JSONDecodeError and lets every other exception pass.
\<close>

definition load_data :: "('f \<Rightarrow> error + json) \<Rightarrow> 'f option \<Rightarrow> error + json" where
  "load_data json_load file =
     (case (case file of None \<Rightarrow> Inl FileNotFoundError | Some content \<Rightarrow> json_load content) of
        Inl e \<Rightarrow>
          (if e = FileNotFoundError \<or> e = JSONDecodeError then Inr empty_document else Inl e)
      | Inr data \<Rightarrow> Inr data)"

definition save_data :: "(json \<Rightarrow> 'f) \<Rightarrow> json \<Rightarrow> 'f option \<Rightarrow> 'f option" where
  "save_data json_dump data file = Some (json_dump data)"

subsection \<open>Metrics: \<^verbatim>\<open>get_weekly_progress\<close>\<close>

text \<open>
  The keys of the \<^verbatim>\<open>progress\<close> dict: a JSON value used as a key must be hashable
  (lists and dicts are not), and \<^verbatim>\<open>True\<close> and \<^verbatim>\<open>1\<close> are the same key.
\<close>

datatype key = KNone | KNum int | KStr string

fun hash_key :: "json \<Rightarrow> error + key" where
  "hash_key JNull = Inr KNone"
| "hash_key (JBool b) = Inr (KNum (if b then 1 else 0))"
| "hash_key (JNum n) = Inr (KNum n)"
| "hash_key (JStr s) = Inr (KStr s)"
| "hash_key (JArr xs) = Inl TypeError"
| "hash_key (JObj kvs) = Inl TypeError"

text \<open>
  \<^verbatim>\<open>for i in range(7): progress[(today - timedelta(days=i)).isoformat()] = 0\<close>
\<close>

definition init_week :: "(int \<Rightarrow> string) \<Rightarrow> int \<Rightarrow> (key \<times> int) list" where
  "init_week isoformat today =
     foldl (\<lambda>progress i. AList.update (KStr (isoformat (today - int i))) 0 progress) [] [0..<7]"

text \<open>\<^verbatim>\<open>progress[date] += 1\<close> on a \<^verbatim>\<open>defaultdict(int)\<close>: a missing key counts from 0.\<close>

definition increment :: "(key \<times> int) list \<Rightarrow> key \<Rightarrow> (key \<times> int) list" where
  "increment progress k =
     AList.update k ((case map_of progress k of None \<Rightarrow> 0 | Some c \<Rightarrow> c) + 1) progress"

fun count_challenges :: "(key \<times> int) list \<Rightarrow> json list \<Rightarrow> error + (key \<times> int) list" where
  "count_challenges progress [] = Inr progress"
| "count_challenges progress (challenge # rest) =
     (case get_item challenge ''date'' of
        Inl e \<Rightarrow> Inl e
      | Inr date \<Rightarrow>
          (case hash_key date of
             Inl e \<Rightarrow> Inl e
           | Inr k \<Rightarrow> count_challenges (increment progress k) rest))"

definition get_weekly_progress ::
  "('f \<Rightarrow> error + json) \<Rightarrow> (int \<Rightarrow> string) \<Rightarrow> int \<Rightarrow> 'f option \<Rightarrow> error + (key \<times> int) list" where
  "get_weekly_progress json_load isoformat today file =
     (case load_data json_load file of
        Inl e \<Rightarrow> Inl e
      | Inr data \<Rightarrow>
          (case get_item data ''completed_challenges'' of
             Inl e \<Rightarrow> Inl e
           | Inr challenges \<Rightarrow>
               (case py_iter challenges of
                  Inl e \<Rightarrow> Inl e
                | Inr cs \<Rightarrow> count_challenges (init_week isoformat today) cs)))"

subsection \<open>Identity: \<^verbatim>\<open>authenticate_user\<close>\<close>

text \<open>
  The state a call can change: the entry \<^verbatim>\<open>authenticated\<close> of the session state
  and the data file. A call returns, asks for a rerun (\<^verbatim>\<open>st.rerun()\<close> ends the
  script run) or raises.
\<close>

record 'f app_state =
  authenticated :: "string option"
  data_file :: "'f option"

datatype 'a outcome = Returned 'a | Rerun | Raised error

text \<open>
  The widgets are inputs: the text of the username field and whether the login and the
  logout button were pressed.
\<close>

definition authenticate_user ::
  "('f \<Rightarrow> error + json) \<Rightarrow> (json \<Rightarrow> 'f) \<Rightarrow> (int \<Rightarrow> string) \<Rightarrow> int \<Rightarrow>
   string \<Rightarrow> bool \<Rightarrow> bool \<Rightarrow> 'f app_state \<Rightarrow> string option outcome \<times> 'f app_state" where
  "authenticate_user json_load json_dump isoformat today username login logout s =
     (case load_data json_load (data_file s) of
        Inl e \<Rightarrow> (Raised e, s)
      | Inr data \<Rightarrow>
          (case authenticated s of
             None \<Rightarrow>
               (if login then
                  (if username \<noteq> [] then
                     (let s1 = s\<lparr>authenticated := Some username\<rparr> in
                      case get_item data ''users'' of
                        Inl e \<Rightarrow> (Raised e, s1)
                      | Inr users \<Rightarrow>
                          (case contains users username of
                             Inl e \<Rightarrow> (Raised e, s1)
                           | Inr True \<Rightarrow> (Rerun, s1)
                           | Inr False \<Rightarrow>
                               (case set_item users username
                                       (JObj [(''joined'', JStr (isoformat today))]) of
                                  Inl e \<Rightarrow> (Raised e, s1)
                                | Inr users' \<Rightarrow>
                                    (case set_item data ''users'' users' of
                                       Inl e \<Rightarrow> (Raised e, s1)
                                     | Inr data' \<Rightarrow>
                                         (Rerun,
                                          s1\<lparr>data_file :=
                                               save_data json_dump data' (data_file s1)\<rparr>)))))
                   else (Returned None, s))
                else (Returned None, s))
           | Some name \<Rightarrow>
               (if logout then (Rerun, s\<lparr>authenticated := None\<rparr>)
                else (Returned (Some name), s))))"

subsection \<open>Journal: deleting an entry\<close>

text \<open>
  The comprehension \<^verbatim>\<open>[e for e in data["journal_entries"] if e["id"] != entry["id"]]\<close>
  of \<^verbatim>\<open>reflection_journal\<close>. The identifier of the pressed button is a string, as
  \<^verbatim>\<open>str(uuid.uuid4())\<close> creates it; a JSON value differs from it unless it is
  that very string.
\<close>

fun filter_entries :: "string \<Rightarrow> json list \<Rightarrow> error + json list" where
  "filter_entries entry_id [] = Inr []"
| "filter_entries entry_id (e # es) =
     (case get_item e ''id'' of
        Inl err \<Rightarrow> Inl err
      | Inr i \<Rightarrow>
          (case filter_entries entry_id es of
             Inl err \<Rightarrow> Inl err
           | Inr kept \<Rightarrow> Inr (if i \<noteq> JStr entry_id then e # kept else kept)))"

text \<open>
  The body of the Delete button: the assignment to \<^verbatim>\<open>data["journal_entries"]\<close>,
  \<^verbatim>\<open>save_data(data)\<close> and \<^verbatim>\<open>st.rerun()\<close>. \<open>data\<close> is the document that
  \<^verbatim>\<open>reflection_journal\<close> loaded.
\<close>

definition delete_entry :: "json \<Rightarrow> string \<Rightarrow> error + json" where
  "delete_entry data entry_id =
     (case get_item data ''journal_entries'' of
        Inl e \<Rightarrow> Inl e
      | Inr entries \<Rightarrow>
          (case py_iter entries of
             Inl e \<Rightarrow> Inl e
           | Inr es \<Rightarrow>
               (case filter_entries entry_id es of
                  Inl e \<Rightarrow> Inl e
                | Inr kept \<Rightarrow> set_item data ''journal_entries'' (JArr kept))))"

definition delete_journal_entry ::
  "(json \<Rightarrow> 'f) \<Rightarrow> json \<Rightarrow> string \<Rightarrow> 'f app_state \<Rightarrow> unit outcome \<times> 'f app_state" where
  "delete_journal_entry json_dump data entry_id s =
     (case delete_entry data entry_id of
        Inl e \<Rightarrow> (Raised e, s)
      | Inr data' \<Rightarrow> (Rerun, s\<lparr>data_file := save_data json_dump data' (data_file s)\<rparr>))"

subsection \<open>Sample data\<close>

text \<open>
  The week that ends on 2024-03-10 (ordinal 738955) as \<^verbatim>\<open>date.isoformat\<close> prints
  it, for running the functions on examples.
\<close>

definition sample_isoformat :: "int \<Rightarrow> string" where
  "sample_isoformat d =
     (case map_of
        [(738949, ''2024-03-04''), (738950, ''2024-03-05''), (738951, ''2024-03-06''),
         (738952, ''2024-03-07''), (738953, ''2024-03-08''), (738954, ''2024-03-09''),
         (738955, ''2024-03-10'')] d of
        None \<Rightarrow> []
      | Some s \<Rightarrow> s)"

text \<open>A completed challenge as \<^verbatim>\<open>daily_challenge\<close> appends it.\<close>

definition completion :: "string \<Rightarrow> string \<Rightarrow> string \<Rightarrow> json" where
  "completion date challenge user =
     JObj [(''date'', JStr date), (''challenge'', JStr challenge), (''user'', JStr user)]"

text \<open>
  \<^verbatim>\<open>json.load\<close> on the file contents of the examples. The file is opened in
  text mode, so its bytes are decoded first: the byte \<open>0xFF\<close> occurs in no UTF-8
  text and raises UnicodeDecodeError. Of the decoded texts, \<open>{}\<close> is the empty
  object and the others used here are not JSON.
\<close>

definition sample_json_load :: "string \<Rightarrow> error + json" where
  "sample_json_load content =
     (if CHR 0xFF \<in> set content then Inl UnicodeDecodeError
      else if content = ''{}'' then Inr (JObj [])
      else Inl JSONDecodeError)"

text \<open>
  A journal entry as \<^verbatim>\<open>reflection_journal\<close> appends it; the mood is one of four
  emoji, a string of UTF-8 bytes here.
\<close>

definition journal_entry ::
  "string \<Rightarrow> string \<Rightarrow> string \<Rightarrow> string \<Rightarrow> string \<Rightarrow> string list \<Rightarrow> string \<Rightarrow> json" where
  "journal_entry entry_id date reflection lessons mood tags user =
     JObj [(''id'', JStr entry_id), (''date'', JStr date), (''reflection'', JStr reflection),
           (''lessons'', JStr lessons), (''mood'', JStr mood), (''tags'', JArr (map JStr tags)),
           (''user'', JStr user)]"

section \<open>Properties of the streak\<close>

lemma parse_dates_map:
  "map fromisoformat ss = map Some ds \<Longrightarrow> parse_dates fromisoformat ss = Inr ds"
proof (induction ss arbitrary: ds)
  case Nil
  then show ?case by simp
next
  case (Cons s ss)
  then obtain d ds' where ds: "ds = d # ds'" by (cases ds) auto
  with Cons.prems have "fromisoformat s = Some d" "map fromisoformat ss = map Some ds'"
    by simp_all
  with Cons.IH ds show ?case by simp
qed

lemma calculate_streak_parsed:
  assumes "map fromisoformat ss = map Some ds"
  shows "calculate_streak fromisoformat today ss =
           Inr (if ds = [] then 0 else streak_loop today 1 (rev (sort ds)))"
proof -
  have "ss = [] \<longleftrightarrow> ds = []" using assms by (metis map_is_Nil_conv)
  then show ?thesis
    by (simp add: calculate_streak_def parse_dates_map [OF assms])
qed

lemma streak_loop_ge: "streak \<le> streak_loop current_date streak ds"
proof (induction ds arbitrary: current_date streak)
  case Nil
  show ?case by simp
next
  case (Cons d ds)
  have "streak \<le> streak_loop d (streak + 1) ds"
    using Cons.IH [of "streak + 1" d] by linarith
  with Cons.IH [of streak current_date] show ?case by simp
qed

lemma rev_sort_newest:
  assumes "ds \<noteq> []"
  obtains newest rest where "rev (sort ds) = newest # rest" "newest \<in> set ds"
proof -
  have "rev (sort ds) \<noteq> []" using assms by (metis rev_is_Nil_conv length_0_conv length_sort)
  then obtain newest rest where eq: "rev (sort ds) = newest # rest"
    by (cases "rev (sort ds)") auto
  then have "newest \<in> set (rev (sort ds))" by simp
  then have "newest \<in> set ds" by simp
  with eq that show thesis by blast
qed

text \<open>
  C1. A list holding exactly one date, equal to today, has streak 1: a date equal to
  today takes the \<^verbatim>\<open>continue\<close> branch, so the scan goes on with the counter
  as it was.
\<close>

theorem calculate_streak_today_only:
  "fromisoformat s = Some today \<Longrightarrow>
   calculate_streak fromisoformat today [s] = Inr 1
   \<and> (\<forall>streak rest.
         streak_loop today streak (today # rest) = streak_loop today streak rest)"
  by (simp add: calculate_streak_def)

theorem calculate_streak_today_only_witness:
  "map_of [(''2024-03-10'', 738955)] ''2024-03-10'' = Some (738955 :: int)
   \<and> calculate_streak (map_of [(''2024-03-10'', 738955)]) 738955 [''2024-03-10''] = Inr 1
   \<and> streak_loop 738955 1 [738955, 738954] = 2"
  using calculate_streak_today_only
    [of "map_of [(''2024-03-10'', 738955)]" "''2024-03-10''" 738955]
  by simp

text \<open>
  C3. A list that consists of today, yesterday and the day before, in any order, has
  streak 3.
\<close>

theorem calculate_streak_three_days:
  assumes "map fromisoformat ss = map Some ds"
    and "mset ds = {#today, today - 1, today - 2#}"
  shows "calculate_streak fromisoformat today ss = Inr 3"
proof -
  have s: "sort ds = [today - 2, today - 1, today]"
    by (rule properties_for_sort) (use assms(2) in simp_all)
  have "ds \<noteq> []" using assms(2) by auto
  then show ?thesis
    by (simp add: calculate_streak_parsed [OF assms(1)] s)
qed

theorem calculate_streak_three_days_witness:
  "calculate_streak
     (map_of [(''2024-03-10'', 738955), (''2024-03-09'', 738954), (''2024-03-08'', 738953)])
     738955 [''2024-03-09'', ''2024-03-10'', ''2024-03-08''] = Inr 3"
  using calculate_streak_three_days
    [of "map_of [(''2024-03-10'', 738955), (''2024-03-09'', 738954), (''2024-03-08'', 738953)]"
        "[''2024-03-09'', ''2024-03-10'', ''2024-03-08'']" "[738954, 738955, 738953]" 738955]
  by simp

text \<open>
  C4. A list that consists of today and the date two days before today has streak 1;
  in general the scan stops with the count it has reached at the first date more than
  one day before the cursor.
\<close>

theorem calculate_streak_gap:
  assumes "map fromisoformat ss = map Some ds"
    and "mset ds = {#today, today - 2#}"
  shows "calculate_streak fromisoformat today ss = Inr 1
         \<and> (\<forall>current_date date streak rest.
               1 < current_date - date \<longrightarrow>
               streak_loop current_date streak (date # rest) = streak)"
proof -
  have s: "sort ds = [today - 2, today]"
    by (rule properties_for_sort) (use assms(2) in simp_all)
  have "ds \<noteq> []" using assms(2) by auto
  then have "calculate_streak fromisoformat today ss = Inr 1"
    by (simp add: calculate_streak_parsed [OF assms(1)] s)
  then show ?thesis by simp
qed

theorem calculate_streak_gap_witness:
  "calculate_streak (map_of [(''2024-03-10'', 738955), (''2024-03-08'', 738953)])
     738955 [''2024-03-10'', ''2024-03-08''] = Inr 1
   \<and> streak_loop 738955 1 [738953, 738952] = 1"
  using calculate_streak_gap
    [of "map_of [(''2024-03-10'', 738955), (''2024-03-08'', 738953)]"
        "[''2024-03-10'', ''2024-03-08'']" "[738955, 738953]" 738955]
  by simp

text \<open>
  C10. Every non-empty list of dates has a streak of at least 1, whether or not a date
  equals today, and a list holding only yesterday's date has streak 2: the counter is 1
  before the scan and the match of yesterday adds 1.
\<close>

theorem calculate_streak_at_least_one:
  assumes "ss \<noteq> []" and "map fromisoformat ss = map Some ds"
  shows "(\<exists>n. calculate_streak fromisoformat today ss = Inr n \<and> 1 \<le> n)
         \<and> (\<forall>s. fromisoformat s = Some (today - 1) \<longrightarrow>
                calculate_streak fromisoformat today [s] = Inr 2)"
proof -
  have "ds \<noteq> []" using assms by auto
  then have "calculate_streak fromisoformat today ss = Inr (streak_loop today 1 (rev (sort ds)))"
    by (simp add: calculate_streak_parsed [OF assms(2)])
  moreover have "1 \<le> streak_loop today 1 (rev (sort ds))" by (rule streak_loop_ge)
  ultimately have "\<exists>n. calculate_streak fromisoformat today ss = Inr n \<and> 1 \<le> n" by blast
  moreover have "\<forall>s. fromisoformat s = Some (today - 1) \<longrightarrow>
                calculate_streak fromisoformat today [s] = Inr 2"
    by (simp add: calculate_streak_def)
  ultimately show ?thesis by blast
qed

theorem calculate_streak_at_least_one_witness:
  "calculate_streak (map_of [(''2024-03-09'', 738954), (''2024-03-01'', 738946)]) 738955
     [''2024-03-01''] = Inr 1
   \<and> calculate_streak (map_of [(''2024-03-09'', 738954), (''2024-03-01'', 738946)]) 738955
     [''2024-03-09''] = Inr 2"
proof -
  let ?f = "map_of [(''2024-03-09'', 738954 :: int), (''2024-03-01'', 738946)]"
  have a: "[''2024-03-01''] \<noteq> []" by simp
  have b: "map ?f [''2024-03-01''] = map Some [738946]" by simp
  have c: "?f ''2024-03-09'' = Some (738955 - 1)" by simp
  from calculate_streak_at_least_one [OF a b, of 738955] c
  have "calculate_streak ?f 738955 [''2024-03-09''] = Inr 2" by blast
  moreover have "calculate_streak ?f 738955 [''2024-03-01''] = Inr 1"
    by (simp add: calculate_streak_def)
  ultimately show ?thesis by blast
qed

text \<open>
  C2. The claim: a non-empty list with neither today nor yesterday has, as its streak,
  the length of the last run of consecutive days counted back from its most recent
  date. The code does not do so: on 2024-03-10 the list of 5, 6 and 7 March has
  streak 1, and its last run has length 3.
\<close>

theorem calculate_streak_stale_run_counterexample:
  "calculate_streak
     (map_of [(''2024-03-05'', 738950), (''2024-03-06'', 738951), (''2024-03-07'', 738952)])
     738955 [''2024-03-05'', ''2024-03-06'', ''2024-03-07''] = Inr 1
   \<and> spec_last_run [738950, 738951, 738952] = 3
   \<and> 738955 \<notin> set [738950, 738951, 738952 :: int]
   \<and> 738955 - 1 \<notin> set [738950, 738951, 738952 :: int]"
  by (simp add: calculate_streak_def spec_last_run_def)

text \<open>
  C2, as amended. A non-empty list with neither today nor yesterday has streak 1,
  whatever runs it holds: the counter is 1 before the scan, and the scan stops at the
  most recent date, which is neither the cursor nor one day before it.
\<close>

theorem calculate_streak_stale:
  assumes "ss \<noteq> []" and "map fromisoformat ss = map Some ds"
    and "today \<notin> set ds" and "today - 1 \<notin> set ds"
  shows "calculate_streak fromisoformat today ss = Inr 1"
proof -
  have ne: "ds \<noteq> []" using assms(1,2) by auto
  then obtain newest rest where r: "rev (sort ds) = newest # rest" and m: "newest \<in> set ds"
    by (rule rev_sort_newest)
  from m assms(3) have a: "newest \<noteq> today" by auto
  from m assms(4) have "newest \<noteq> today - 1" by auto
  then have b: "today - newest \<noteq> 1" by linarith
  from a b have "streak_loop today 1 (rev (sort ds)) = 1" by (simp add: r)
  with ne show ?thesis by (simp add: calculate_streak_parsed [OF assms(2)])
qed

theorem calculate_streak_stale_witness:
  "calculate_streak
     (map_of [(''2024-03-05'', 738950), (''2024-03-06'', 738951), (''2024-03-07'', 738952)])
     738955 [''2024-03-05'', ''2024-03-06'', ''2024-03-07''] = Inr 1"
  using calculate_streak_stale
    [of "[''2024-03-05'', ''2024-03-06'', ''2024-03-07'']"
        "map_of [(''2024-03-05'', 738950), (''2024-03-06'', 738951), (''2024-03-07'', 738952)]"
        "[738950, 738951, 738952]" 738955]
  by simp

section \<open>Properties of the store\<close>

text \<open>
  C5. The claim: whenever the data file is absent or its content fails to parse,
  \<^verbatim>\<open>load_data\<close> returns the empty document and raises nothing. The code does
  not: the \<^verbatim>\<open>except\<close> clause names FileNotFoundError and JSONDecodeError only.
  A file with the four bytes FF FE 7B 7D is not UTF-8 text, reading it fails with
  UnicodeDecodeError, and \<^verbatim>\<open>load_data\<close> raises that exception to its caller.
\<close>

theorem load_data_undecodable_counterexample:
  "sample_json_load [CHR 0xFF, CHR 0xFE, CHR 0x7B, CHR 0x7D] = Inl UnicodeDecodeError
   \<and> load_data sample_json_load (Some [CHR 0xFF, CHR 0xFE, CHR 0x7B, CHR 0x7D])
       = Inl UnicodeDecodeError
   \<and> load_data sample_json_load (Some [CHR 0xFF, CHR 0xFE, CHR 0x7B, CHR 0x7D])
       \<noteq> Inr empty_document"
  by (simp add: sample_json_load_def load_data_def)

text \<open>
  C5, as amended. When the data file is absent, or the parser rejects its content with
  JSONDecodeError, \<^verbatim>\<open>load_data\<close> returns the empty document, whose four
  collections are empty; it returns a value and raises nothing.
\<close>

theorem load_data_recovers:
  "load_data json_load None = Inr empty_document
   \<and> (json_load content = Inl JSONDecodeError \<longrightarrow>
        load_data json_load (Some content) = Inr empty_document)
   \<and> get_item empty_document ''journal_entries'' = Inr (JArr [])
   \<and> get_item empty_document ''completed_challenges'' = Inr (JArr [])
   \<and> get_item empty_document ''community_posts'' = Inr (JArr [])
   \<and> get_item empty_document ''users'' = Inr (JObj [])"
  by (simp add: load_data_def empty_document_def)

theorem load_data_recovers_witness:
  "load_data (\<lambda>c :: string. Inl JSONDecodeError :: error + json) None = Inr empty_document
   \<and> load_data (\<lambda>c :: string. Inl JSONDecodeError :: error + json) (Some ''{not json'')
       = Inr empty_document
   \<and> get_item empty_document ''users'' = Inr (JObj [])"
  using load_data_recovers [of "\<lambda>c :: string. Inl JSONDecodeError" "''{not json''"]
  by simp

text \<open>Any other exception of the parser is not caught.\<close>

lemma load_data_other_error:
  "json_load content = Inl UnicodeDecodeError \<Longrightarrow>
   load_data json_load (Some content) = Inl UnicodeDecodeError"
  by (simp add: load_data_def)

section \<open>Properties of the weekly progress\<close>

lemma map_of_increment:
  "map_of (increment p k) k' =
     (if k' = k then Some ((case map_of p k of None \<Rightarrow> 0 | Some c \<Rightarrow> c) + 1) else map_of p k')"
  by (simp add: increment_def update_conv')

lemma keys_increment: "fst ` set (increment p k) = insert k (fst ` set p)"
  by (simp add: increment_def dom_update)

lemma distinct_increment: "distinct (map fst p) \<Longrightarrow> distinct (map fst (increment p k))"
  by (simp add: increment_def distinct_update)

lemma count_challenges_dates:
  "map (\<lambda>c. get_item c ''date'') cs = map (\<lambda>d. Inr (JStr d)) ds \<Longrightarrow>
   count_challenges p cs = Inr (foldl increment p (map KStr ds))"
proof (induction cs arbitrary: p ds)
  case Nil
  then show ?case by simp
next
  case (Cons c cs)
  then obtain d ds' where ds: "ds = d # ds'" by (cases ds) auto
  with Cons.prems have "get_item c ''date'' = Inr (JStr d)"
    and "map (\<lambda>c. get_item c ''date'') cs = map (\<lambda>d. Inr (JStr d)) ds'"
    by simp_all
  with Cons.IH [of ds' "increment p (KStr d)"] ds show ?case by simp
qed

lemma keys_foldl_increment:
  "fst ` set (foldl increment p ks) = fst ` set p \<union> set ks"
  by (induction ks arbitrary: p) (auto simp: keys_increment)

lemma distinct_foldl_increment:
  "distinct (map fst p) \<Longrightarrow> distinct (map fst (foldl increment p ks))"
  by (induction ks arbitrary: p) (simp_all add: distinct_increment)

lemma map_of_foldl_increment:
  "map_of (foldl increment p ks) k =
     (if k \<in> fst ` set p \<union> set ks
      then Some ((case map_of p k of None \<Rightarrow> 0 | Some c \<Rightarrow> c) + int (count_list ks k))
      else None)"
proof (induction ks arbitrary: p)
  case Nil
  show ?case
    by (cases "map_of p k") (force simp: map_of_eq_None_iff dest: map_of_SomeD)+
next
  case (Cons x ks)
  show ?case
    by (simp add: Cons.IH [of "increment p x"] keys_increment map_of_increment)
qed


lemma update_fresh: "k \<notin> fst ` set p \<Longrightarrow> AList.update k v p = p @ [(k, v)]"
  by (induction p) auto

lemma foldl_update_fresh:
  "distinct ks \<Longrightarrow> set ks \<inter> fst ` set p = {} \<Longrightarrow>
   foldl (\<lambda>q k. AList.update k v q) p ks = p @ map (\<lambda>k. (k, v)) ks"
proof (induction ks arbitrary: p)
  case Nil
  show ?case by simp
next
  case (Cons k ks)
  from Cons.prems have fresh: "k \<notin> fst ` set p" by auto
  have step: "AList.update k v p = p @ [(k, v)]" by (rule update_fresh [OF fresh])
  from Cons.prems have "distinct ks" and "set ks \<inter> fst ` set (p @ [(k, v)]) = {}" by auto
  then have "foldl (\<lambda>q k. AList.update k v q) (p @ [(k, v)]) ks = (p @ [(k, v)]) @ map (\<lambda>k. (k, v)) ks"
    by (rule Cons.IH)
  with step show ?case by simp
qed

lemma init_week_foldl:
  "init_week isoformat today =
     foldl (\<lambda>q k. AList.update k 0 q) [] (map (\<lambda>i. KStr (isoformat (today - int i))) [0..<7])"
  by (simp add: init_week_def foldl_map)

lemma week_days: "(\<lambda>i. today - int i) ` {0..<7} = {today - 6..today}"
proof
  show "(\<lambda>i. today - int i) ` {0..<7} \<subseteq> {today - 6..today}" by auto
  show "{today - 6..today} \<subseteq> (\<lambda>i. today - int i) ` {0..<7}"
  proof
    fix d assume "d \<in> {today - 6..today}"
    then have "d = today - int (nat (today - d))" and "nat (today - d) \<in> {0..<7}" by auto
    then show "d \<in> (\<lambda>i. today - int i) ` {0..<7}" by (rule image_eqI)
  qed
qed

lemma keys_foldl_update:
  "fst ` set (foldl (\<lambda>q k. AList.update k v q) p ks) = fst ` set p \<union> set ks"
  by (induction ks arbitrary: p) (auto simp: dom_update)

lemma distinct_foldl_update:
  "distinct (map fst p) \<Longrightarrow> distinct (map fst (foldl (\<lambda>q k. AList.update k v q) p ks))"
  by (induction ks arbitrary: p) (simp_all add: distinct_update)

lemma map_of_foldl_update:
  "map_of (foldl (\<lambda>q k. AList.update k v q) p ks) k =
     (if k \<in> set ks then Some v else map_of p k)"
  by (induction ks arbitrary: p) (auto simp: update_conv')

lemma keys_init_week:
  "fst ` set (init_week isoformat today) = KStr ` isoformat ` {today - 6..today}"
proof -
  have "fst ` set (init_week isoformat today) = (\<lambda>i. KStr (isoformat (today - int i))) ` {0..<7}"
    by (simp add: init_week_foldl keys_foldl_update)
  also have "\<dots> = KStr ` isoformat ` (\<lambda>i. today - int i) ` {0..<7}"
    by (simp add: image_image)
  finally show ?thesis by (simp only: week_days)
qed

lemma distinct_init_week: "distinct (map fst (init_week isoformat today))"
  by (simp only: init_week_foldl) (rule distinct_foldl_update, simp)

lemma map_of_init_week:
  "k \<in> fst ` set (init_week isoformat today) \<Longrightarrow> map_of (init_week isoformat today) k = Some 0"
proof -
  assume "k \<in> fst ` set (init_week isoformat today)"
  then have "k \<in> set (map (\<lambda>i. KStr (isoformat (today - int i))) [0..<7])"
    by (simp only: init_week_foldl keys_foldl_update) simp
  then show ?thesis
    by (simp only: init_week_foldl map_of_foldl_update if_True)
qed

lemma week_distinct:
  assumes "inj_on isoformat {today - 6..today}"
  shows "distinct (map (\<lambda>i. isoformat (today - int i)) [0..<7])"
proof -
  have "inj_on (\<lambda>i. today - int i) (set [0..<7])" by (auto simp: inj_on_def)
  then have d: "distinct (map (\<lambda>i. today - int i) [0..<7])" by (simp add: distinct_map)
  have "set (map (\<lambda>i. today - int i) [0..<7]) = {today - 6..today}"
    using week_days [of today] by simp
  with assms have "inj_on isoformat (set (map (\<lambda>i. today - int i) [0..<7]))" by simp
  with d have "distinct (map isoformat (map (\<lambda>i. today - int i) [0..<7]))"
    by (simp only: distinct_map)
  then show ?thesis by (simp add: comp_def)
qed

lemma init_week_explicit:
  assumes "inj_on isoformat {today - 6..today}"
  shows "init_week isoformat today = map (\<lambda>i. (KStr (isoformat (today - int i)), 0)) [0..<7]"
proof -
  have "distinct (map KStr (map (\<lambda>i. isoformat (today - int i)) [0..<7]))"
    using week_distinct [OF assms] by (simp only: distinct_map) (simp add: inj_on_def)
  then have "distinct (map (\<lambda>i. KStr (isoformat (today - int i))) [0..<7])"
    by (simp add: comp_def)
  then have "foldl (\<lambda>q k. AList.update k 0 q) [] (map (\<lambda>i. KStr (isoformat (today - int i))) [0..<7])
      = [] @ map (\<lambda>k. (k, 0 :: int)) (map (\<lambda>i. KStr (isoformat (today - int i))) [0..<7])"
    by (rule foldl_update_fresh) simp
  then show ?thesis by (simp add: init_week_foldl comp_def)
qed


text \<open>
  C6. When the stored list of completed challenges is empty, the weekly progress has
  exactly seven keys, today and the six days before it, each with count 0.
\<close>

theorem weekly_progress_empty:
  assumes "load_data json_load file = Inr data"
    and "get_item data ''completed_challenges'' = Inr (JArr [])"
    and "inj_on isoformat {today - 6..today}"
  shows "get_weekly_progress json_load isoformat today file =
           Inr (map (\<lambda>i. (KStr (isoformat (today - int i)), 0)) [0..<7])
         \<and> distinct (map (\<lambda>i. isoformat (today - int i)) [0..<7])"
proof -
  have "get_weekly_progress json_load isoformat today file = Inr (init_week isoformat today)"
    by (simp add: get_weekly_progress_def assms(1,2))
  then show ?thesis
    by (simp only: init_week_explicit [OF assms(3)] week_distinct [OF assms(3)] simp_thms)
qed

lemma sample_week_inj: "inj_on sample_isoformat {738955 - 6..738955}"
proof -
  have "[738949..738955 :: int] = [738949, 738950, 738951, 738952, 738953, 738954, 738955]"
    by (simp add: upto_rec1)
  then have "{738955 - 6..738955 :: int} = set [738949, 738950, 738951, 738952, 738953, 738954, 738955]"
    using set_upto [of 738949 738955] by simp
  moreover have "inj_on sample_isoformat
      (set [738949, 738950, 738951, 738952, 738953, 738954, 738955])"
    by (simp add: sample_isoformat_def)
  ultimately show ?thesis by simp
qed

theorem weekly_progress_empty_witness:
  "get_weekly_progress (\<lambda>c :: string. Inl JSONDecodeError :: error + json) sample_isoformat
     738955 None =
     Inr [(KStr ''2024-03-10'', 0), (KStr ''2024-03-09'', 0), (KStr ''2024-03-08'', 0),
          (KStr ''2024-03-07'', 0), (KStr ''2024-03-06'', 0), (KStr ''2024-03-05'', 0),
          (KStr ''2024-03-04'', 0)]"
proof -
  let ?load = "\<lambda>c :: string. Inl JSONDecodeError :: error + json"
  have a: "load_data ?load None = Inr empty_document" by (simp add: load_data_def)
  have b: "get_item empty_document ''completed_challenges'' = Inr (JArr [])"
    by (simp add: empty_document_def)
  have w: "[0..<7] = [0, 1, 2, 3, 4, 5, 6 :: nat]" by (simp add: upt_rec)
  from weekly_progress_empty [OF a b sample_week_inj] show ?thesis
    by (simp add: w sample_isoformat_def)
qed

text \<open>
  C7. For every list of completions, the weekly progress maps each date of the week and
  each date of a completion to the number of completions with that date: a date of the
  week with no completion keeps 0, and a date outside the week is a key of its own.
\<close>

theorem weekly_progress_counts:
  assumes "load_data json_load file = Inr data"
    and "get_item data ''completed_challenges'' = Inr (JArr cs)"
    and "map (\<lambda>c. get_item c ''date'') cs = map (\<lambda>d. Inr (JStr d)) ds"
  shows "\<exists>progress.
           get_weekly_progress json_load isoformat today file = Inr progress
           \<and> distinct (map fst progress)
           \<and> fst ` set progress = KStr ` (isoformat ` {today - 6..today} \<union> set ds)
           \<and> (\<forall>d \<in> isoformat ` {today - 6..today} \<union> set ds.
                 map_of progress (KStr d) = Some (int (count_list ds d)))"
proof -
  let ?p = "foldl increment (init_week isoformat today) (map KStr ds)"
  have run: "get_weekly_progress json_load isoformat today file = Inr ?p"
    by (simp add: get_weekly_progress_def assms(1,2) count_challenges_dates [OF assms(3)])
  have dist: "distinct (map fst ?p)"
    by (rule distinct_foldl_increment) (rule distinct_init_week)
  have keys: "fst ` set ?p = KStr ` (isoformat ` {today - 6..today} \<union> set ds)"
    by (simp add: keys_foldl_increment keys_init_week image_Un)
  have counts: "map_of ?p (KStr d) = Some (int (count_list ds d))"
    if d: "d \<in> isoformat ` {today - 6..today} \<union> set ds" for d
  proof -
    have cnt: "count_list (map KStr ds) (KStr d) = count_list ds d"
      by (induction ds) simp_all
    have start: "(case map_of (init_week isoformat today) (KStr d) of None \<Rightarrow> 0 | Some c \<Rightarrow> c) = 0"
    proof (cases "KStr d \<in> fst ` set (init_week isoformat today)")
      case True
      then show ?thesis by (simp add: map_of_init_week)
    next
      case False
      then have "map_of (init_week isoformat today) (KStr d) = None"
        by (simp add: map_of_eq_None_iff)
      then show ?thesis by simp
    qed
    from d have "KStr d \<in> fst ` set (init_week isoformat today) \<union> set (map KStr ds)"
      by (auto simp: keys_init_week)
    then show ?thesis
      by (simp only: map_of_foldl_increment if_True start cnt) simp
  qed
  from run dist keys counts show ?thesis by blast
qed


theorem weekly_progress_counts_witness:
  "\<exists>progress.
     get_weekly_progress (\<lambda>c :: json. Inr c :: error + json) sample_isoformat 738955
       (Some (JObj [(''completed_challenges'',
                JArr [completion ''2024-03-10'' ''Teach a concept to someone else'' ''alice'',
                      completion ''2024-02-01'' ''Try a new learning method for 30 minutes'' ''bob'',
                      completion ''2024-03-10'' ''Reflect on one mistake and what it taught you'' ''bob''])]))
       = Inr progress
     \<and> distinct (map fst progress)
     \<and> map_of progress (KStr ''2024-03-10'') = Some 2
     \<and> map_of progress (KStr ''2024-03-09'') = Some 0
     \<and> map_of progress (KStr ''2024-02-01'') = Some 1"
proof -
  let ?cs = "[completion ''2024-03-10'' ''Teach a concept to someone else'' ''alice'',
              completion ''2024-02-01'' ''Try a new learning method for 30 minutes'' ''bob'',
              completion ''2024-03-10'' ''Reflect on one mistake and what it taught you'' ''bob'']"
  let ?data = "JObj [(''completed_challenges'', JArr ?cs)]"
  let ?ds = "[''2024-03-10'', ''2024-02-01'', ''2024-03-10'']"
  let ?week = "sample_isoformat ` {738955 - 6..738955}"
  have a: "load_data (\<lambda>c :: json. Inr c :: error + json) (Some ?data) = Inr ?data"
    by (simp add: load_data_def)
  have b: "get_item ?data ''completed_challenges'' = Inr (JArr ?cs)" by simp
  have c: "map (\<lambda>c. get_item c ''date'') ?cs = map (\<lambda>d. Inr (JStr d)) ?ds"
    by (simp add: completion_def)
  from weekly_progress_counts [OF a b c, of sample_isoformat 738955]
  obtain progress where p:
    "get_weekly_progress (\<lambda>c :: json. Inr c :: error + json) sample_isoformat 738955 (Some ?data)
       = Inr progress
     \<and> distinct (map fst progress)
     \<and> fst ` set progress = KStr ` (?week \<union> set ?ds)
     \<and> (\<forall>d \<in> ?week \<union> set ?ds. map_of progress (KStr d) = Some (int (count_list ?ds d)))" ..
  then have counts: "\<forall>d \<in> ?week \<union> set ?ds. map_of progress (KStr d) = Some (int (count_list ?ds d))"
    by (elim conjE)
  have m1: "''2024-03-10'' \<in> ?week \<union> set ?ds" by (rule UnI2) simp
  have "''2024-03-09'' \<in> ?week"
    by (rule image_eqI [of _ _ 738954]) (simp_all add: sample_isoformat_def)
  then have m2: "''2024-03-09'' \<in> ?week \<union> set ?ds" by (rule UnI1)
  have m3: "''2024-02-01'' \<in> ?week \<union> set ?ds" by (rule UnI2) simp
  have n1: "int (count_list ?ds ''2024-03-10'') = 2" by simp
  have n2: "int (count_list ?ds ''2024-03-09'') = 0" by simp
  have n3: "int (count_list ?ds ''2024-02-01'') = 1" by simp
  have r1: "map_of progress (KStr ''2024-03-10'') = Some 2"
    using bspec [OF counts m1] by (simp only: n1)
  have r2: "map_of progress (KStr ''2024-03-09'') = Some 0"
    using bspec [OF counts m2] by (simp only: n2)
  have r3: "map_of progress (KStr ''2024-02-01'') = Some 1"
    using bspec [OF counts m3] by (simp only: n3)
  from p have run: "get_weekly_progress (\<lambda>c :: json. Inr c :: error + json) sample_isoformat 738955 (Some ?data)
       = Inr progress" by (rule conjunct1)
  from p have dist: "distinct (map fst progress)" by (elim conjE)
  show ?thesis
    by (rule exI [of _ progress]) (intro conjI run dist r1 r2 r3)
qed

section \<open>Properties of the identity\<close>

lemma get_item_JObj: "get_item data k = Inr v \<Longrightarrow> \<exists>kvs. data = JObj kvs \<and> map_of kvs k = Some v"
  by (cases data) (auto split: option.splits)

text \<open>A call with a username that the stored document knows never writes the file.\<close>

lemma authenticate_user_existing:
  assumes "load_data json_load (data_file s) = Inr data"
    and "get_item data ''users'' = Inr (JObj users)"
    and "username \<in> fst ` set users"
  shows "data_file (snd (authenticate_user json_load json_dump isoformat today
           username login logout s)) = data_file s"
  using assms by (simp add: authenticate_user_def split: option.splits)

lemma authenticate_user_first:
  assumes "authenticated s = None" and "username \<noteq> []"
    and "load_data json_load (data_file s) = Inr (JObj kvs)"
    and "map_of kvs ''users'' = Some (JObj users)"
    and "username \<notin> fst ` set users"
  shows "authenticate_user json_load json_dump isoformat today username True logout s =
           (Rerun, \<lparr>authenticated = Some username,
                    data_file = Some (json_dump (JObj (AList.update ''users''
                       (JObj (AList.update username (JObj [(''joined'', JStr (isoformat today))]) users))
                       kvs)))\<rparr>)"
  using assms by (simp add: authenticate_user_def save_data_def)


lemma authenticate_user_known:
  assumes "authenticated s = None" and "username \<noteq> []"
    and "load_data json_load (data_file s) = Inr data"
    and "get_item data ''users'' = Inr (JObj users)"
    and "username \<in> fst ` set users"
  shows "authenticate_user json_load json_dump isoformat today username True logout s =
           (Rerun, s\<lparr>authenticated := Some username\<rparr>)"
  using assms by (simp add: authenticate_user_def)

text \<open>
  C8. Two logins with the same username, on any two days: the second one leaves the
  data file as the first one left it, and the user's record read back after the second
  login is the one of the first login: the joined date of that day when the first login
  created the user, the stored record when the user was known before. The parser reads
  back what \<^verbatim>\<open>json.dump\<close> wrote.
\<close>

theorem authenticate_user_twice:
  assumes out: "authenticated s = None" and name: "username \<noteq> []"
    and load: "load_data json_load (data_file s) = Inr data"
    and users: "get_item data ''users'' = Inr (JObj users)"
    and roundtrip: "\<forall>d. json_load (json_dump d) = Inr d"
    and first: "authenticate_user json_load json_dump isoformat today1 username True logout1 s
                  = (r1, s1)"
    and second: "authenticate_user json_load json_dump isoformat today2 username True logout2
                   (s1\<lparr>authenticated := None\<rparr>) = (r2, s2)"
  shows "r1 = Rerun \<and> r2 = Rerun \<and> data_file s2 = data_file s1
         \<and> (\<exists>d us u.
               load_data json_load (data_file s2) = Inr d
               \<and> get_item d ''users'' = Inr us
               \<and> get_item us username = Inr u
               \<and> (username \<notin> fst ` set users \<longrightarrow>
                    u = JObj [(''joined'', JStr (isoformat today1))])
               \<and> (\<forall>u0. map_of users username = Some u0 \<longrightarrow> u = u0))"
proof (cases "username \<in> fst ` set users")
  case True
  from authenticate_user_known [OF out name load users True] first
  have r1: "r1 = Rerun" and s1: "s1 = s\<lparr>authenticated := Some username\<rparr>" by simp_all
  let ?s = "s1\<lparr>authenticated := None\<rparr>"
  have out': "authenticated ?s = None" by simp
  have load': "load_data json_load (data_file ?s) = Inr data" using load s1 by simp
  from authenticate_user_known [OF out' name load' users True] second
  have r2: "r2 = Rerun" and s2: "s2 = ?s\<lparr>authenticated := Some username\<rparr>" by simp_all
  from True obtain u0 where u0: "map_of users username = Some u0"
    by (cases "map_of users username") (auto simp: map_of_eq_None_iff)
  have same: "data_file s2 = data_file s" using s1 s2 by simp
  have "load_data json_load (data_file s2) = Inr data" using load same by simp
  moreover have "get_item (JObj users) username = Inr u0" using u0 by simp
  moreover have "\<forall>u. map_of users username = Some u \<longrightarrow> u0 = u" using u0 by simp
  ultimately have "\<exists>d us u.
               load_data json_load (data_file s2) = Inr d
               \<and> get_item d ''users'' = Inr us
               \<and> get_item us username = Inr u
               \<and> (username \<notin> fst ` set users \<longrightarrow>
                    u = JObj [(''joined'', JStr (isoformat today1))])
               \<and> (\<forall>u0. map_of users username = Some u0 \<longrightarrow> u = u0)"
    using users True by blast
  moreover have "data_file s2 = data_file s1" using s1 s2 by simp
  ultimately show ?thesis using r1 r2 by blast
next
  case False
  from users obtain kvs where data: "data = JObj kvs"
    and kv: "map_of kvs ''users'' = Some (JObj users)"
    using get_item_JObj by blast
  let ?rec = "JObj [(''joined'', JStr (isoformat today1))]"
  let ?users = "AList.update username ?rec users"
  let ?data = "JObj (AList.update ''users'' (JObj ?users) kvs)"
  from authenticate_user_first [OF out name load [unfolded data] kv False] first
  have r1: "r1 = Rerun"
    and s1: "s1 = \<lparr>authenticated = Some username, data_file = Some (json_dump ?data)\<rparr>"
    by simp_all
  let ?s = "s1\<lparr>authenticated := None\<rparr>"
  have out': "authenticated ?s = None" by simp
  have load': "load_data json_load (data_file ?s) = Inr ?data"
    using roundtrip s1 by (simp add: load_data_def)
  have users': "get_item ?data ''users'' = Inr (JObj ?users)" by (simp add: update_conv')
  have known: "username \<in> fst ` set ?users" by (simp add: dom_update)
  from authenticate_user_known [OF out' name load' users' known] second
  have r2: "r2 = Rerun" and s2: "s2 = ?s\<lparr>authenticated := Some username\<rparr>" by simp_all
  have same: "data_file s2 = data_file s1" using s2 by simp
  have "load_data json_load (data_file s2) = Inr ?data" using load' s2 by simp
  moreover have "get_item (JObj ?users) username = Inr ?rec" by (simp add: update_conv')
  moreover have "\<forall>u0. map_of users username = Some u0 \<longrightarrow> ?rec = u0"
    using False by (auto dest: map_of_SomeD intro: rev_image_eqI)
  ultimately have "\<exists>d us u.
               load_data json_load (data_file s2) = Inr d
               \<and> get_item d ''users'' = Inr us
               \<and> get_item us username = Inr u
               \<and> (username \<notin> fst ` set users \<longrightarrow>
                    u = JObj [(''joined'', JStr (isoformat today1))])
               \<and> (\<forall>u0. map_of users username = Some u0 \<longrightarrow> u = u0)"
    using users' by blast
  with r1 r2 same show ?thesis by blast
qed


theorem authenticate_user_twice_witness:
  "authenticate_user (\<lambda>c :: json. Inr c :: error + json) (\<lambda>d. d) sample_isoformat 738954
     ''alice'' True False \<lparr>authenticated = None, data_file = None\<rparr>
     = (Rerun,
        \<lparr>authenticated = Some ''alice'',
         data_file = Some (JObj [(''journal_entries'', JArr []),
                                 (''completed_challenges'', JArr []),
                                 (''community_posts'', JArr []),
                                 (''users'', JObj [(''alice'',
                                     JObj [(''joined'', JStr ''2024-03-09'')])])])\<rparr>)
   \<and> (\<exists>d us.
        load_data (\<lambda>c :: json. Inr c :: error + json)
          (data_file (snd (authenticate_user (\<lambda>c :: json. Inr c :: error + json) (\<lambda>d. d)
             sample_isoformat 738955 ''alice'' True False
             \<lparr>authenticated = None,
              data_file = Some (JObj [(''journal_entries'', JArr []),
                                      (''completed_challenges'', JArr []),
                                      (''community_posts'', JArr []),
                                      (''users'', JObj [(''alice'',
                                          JObj [(''joined'', JStr ''2024-03-09'')])])])\<rparr>)))
          = Inr d
        \<and> get_item d ''users'' = Inr us
        \<and> get_item us ''alice'' = Inr (JObj [(''joined'', JStr ''2024-03-09'')]))"
proof -
  let ?load = "\<lambda>c :: json. Inr c :: error + json"
  let ?dump = "\<lambda>d :: json. d"
  let ?s = "\<lparr>authenticated = None, data_file = None :: json option\<rparr>"
  let ?doc = "JObj [(''journal_entries'', JArr []),
                    (''completed_challenges'', JArr []),
                    (''community_posts'', JArr []),
                    (''users'', JObj [(''alice'', JObj [(''joined'', JStr ''2024-03-09'')])])]"
  let ?s1 = "\<lparr>authenticated = Some ''alice'', data_file = Some ?doc\<rparr>"
  let ?second = "authenticate_user ?load ?dump sample_isoformat 738955 ''alice'' True False
                   (?s1\<lparr>authenticated := None\<rparr>)"
  have out: "authenticated ?s = None" by simp
  have name: "''alice'' \<noteq> []" by simp
  have load: "load_data ?load (data_file ?s) = Inr empty_document" by (simp add: load_data_def)
  have users: "get_item empty_document ''users'' = Inr (JObj [])" by (simp add: empty_document_def)
  have roundtrip: "\<forall>d. ?load (?dump d) = Inr d" by simp
  have first: "authenticate_user ?load ?dump sample_isoformat 738954 ''alice'' True False ?s
                 = (Rerun, ?s1)"
    by (simp add: authenticate_user_def load_data_def empty_document_def save_data_def
          sample_isoformat_def)
  have second: "?second = (fst ?second, snd ?second)" by simp
  have fresh: "''alice'' \<notin> fst ` set ([] :: (string \<times> json) list)" by simp
  from authenticate_user_twice [OF out name load users roundtrip first second]
  obtain d us u where "load_data ?load (data_file (snd ?second)) = Inr d"
    and "get_item d ''users'' = Inr us"
    and "get_item us ''alice'' = Inr u"
    and "''alice'' \<notin> fst ` set ([] :: (string \<times> json) list) \<longrightarrow>
           u = JObj [(''joined'', JStr (sample_isoformat 738954))]"
    by blast
  with fresh have "\<exists>d us. load_data ?load (data_file (snd ?second)) = Inr d
        \<and> get_item d ''users'' = Inr us
        \<and> get_item us ''alice'' = Inr (JObj [(''joined'', JStr ''2024-03-09'')])"
    by (auto simp: sample_isoformat_def)
  with first show ?thesis by simp
qed


section \<open>Properties of the journal\<close>

lemma filter_entries_filter:
  assumes "\<forall>e \<in> set es. \<exists>i. get_item e ''id'' = Inr i"
  shows "filter_entries entry_id es
           = Inr (filter (\<lambda>e. get_item e ''id'' \<noteq> Inr (JStr entry_id)) es)"
  using assms
proof (induction es)
  case Nil
  show ?case by simp
next
  case (Cons e es)
  then obtain i where i: "get_item e ''id'' = Inr i" by auto
  from Cons have "filter_entries entry_id es
           = Inr (filter (\<lambda>e. get_item e ''id'' \<noteq> Inr (JStr entry_id)) es)" by simp
  with i show ?case by simp
qed

lemma filter_remove1:
  "distinct (map f es) \<Longrightarrow> e0 \<in> set es \<Longrightarrow> filter (\<lambda>e. f e \<noteq> f e0) es = remove1 e0 es"
proof (induction es)
  case Nil
  then show ?case by simp
next
  case (Cons e es)
  show ?case
  proof (cases "e = e0")
    case True
    with Cons.prems have "f e0 \<notin> f ` set es" by simp
    then have "\<forall>x \<in> set es. f x \<noteq> f e0" by (metis imageI)
    then have "filter (\<lambda>e. f e \<noteq> f e0) es = es" by (simp add: filter_id_conv)
    with True show ?thesis by simp
  next
    case False
    with Cons.prems have "e0 \<in> set es" and "distinct (map f es)" by auto
    with Cons.IH have "filter (\<lambda>e. f e \<noteq> f e0) es = remove1 e0 es" by simp
    moreover from Cons.prems \<open>e0 \<in> set es\<close> have "f e \<noteq> f e0" by auto
    ultimately show ?thesis using False by simp
  qed
qed

text \<open>
  C9. Deleting a journal entry by its identifier keeps exactly the entries with another
  identifier, in their order and unchanged, and leaves every other field of the document
  as it was; when the identifiers are distinct, the one entry with that identifier is
  removed; when no entry has the identifier, the document is unchanged. No error is
  raised: the call saves the document and asks for a rerun.
\<close>

theorem delete_journal_entry_exact:
  assumes entries: "get_item data ''journal_entries'' = Inr (JArr es)"
    and ids: "\<forall>e \<in> set es. \<exists>i. get_item e ''id'' = Inr i"
  shows "\<exists>data'.
           delete_entry data entry_id = Inr data'
           \<and> delete_journal_entry json_dump data entry_id s
               = (Rerun, s\<lparr>data_file := Some (json_dump data')\<rparr>)
           \<and> get_item data' ''journal_entries''
               = Inr (JArr (filter (\<lambda>e. get_item e ''id'' \<noteq> Inr (JStr entry_id)) es))
           \<and> (\<forall>k. k \<noteq> ''journal_entries'' \<longrightarrow> get_item data' k = get_item data k)
           \<and> ((\<forall>e \<in> set es. get_item e ''id'' \<noteq> Inr (JStr entry_id)) \<longrightarrow> data' = data)
           \<and> (\<forall>e0 \<in> set es.
                 get_item e0 ''id'' = Inr (JStr entry_id)
                 \<and> distinct (map (\<lambda>e. get_item e ''id'') es) \<longrightarrow>
                 get_item data' ''journal_entries'' = Inr (JArr (remove1 e0 es)))"
proof -
  let ?keep = "filter (\<lambda>e. get_item e ''id'' \<noteq> Inr (JStr entry_id)) es"
  from entries obtain kvs where data: "data = JObj kvs"
    and kv: "map_of kvs ''journal_entries'' = Some (JArr es)"
    using get_item_JObj by blast
  let ?data = "JObj (AList.update ''journal_entries'' (JArr ?keep) kvs)"
  have run: "delete_entry data entry_id = Inr ?data"
    by (simp add: delete_entry_def data kv filter_entries_filter [OF ids])
  then have step: "delete_journal_entry json_dump data entry_id s
               = (Rerun, s\<lparr>data_file := Some (json_dump ?data)\<rparr>)"
    by (simp add: delete_journal_entry_def save_data_def)
  have new: "get_item ?data ''journal_entries'' = Inr (JArr ?keep)"
    by (simp add: update_conv')
  have frame: "\<forall>k. k \<noteq> ''journal_entries'' \<longrightarrow> get_item ?data k = get_item data k"
    by (simp add: data update_conv')
  have noop: "(\<forall>e \<in> set es. get_item e ''id'' \<noteq> Inr (JStr entry_id)) \<longrightarrow> ?data = data"
  proof
    assume "\<forall>e \<in> set es. get_item e ''id'' \<noteq> Inr (JStr entry_id)"
    then have "?keep = es" by (simp add: filter_id_conv)
    then show "?data = data" by (simp add: data update_triv [OF kv])
  qed
  have one: "\<forall>e0 \<in> set es.
                 get_item e0 ''id'' = Inr (JStr entry_id)
                 \<and> distinct (map (\<lambda>e. get_item e ''id'') es) \<longrightarrow>
                 get_item ?data ''journal_entries'' = Inr (JArr (remove1 e0 es))"
  proof (intro ballI impI)
    fix e0
    assume e0: "e0 \<in> set es"
      and h: "get_item e0 ''id'' = Inr (JStr entry_id)
              \<and> distinct (map (\<lambda>e. get_item e ''id'') es)"
    then have "filter (\<lambda>e. get_item e ''id'' \<noteq> get_item e0 ''id'') es = remove1 e0 es"
      by (intro filter_remove1) simp_all
    with h have "?keep = remove1 e0 es" by simp
    with new show "get_item ?data ''journal_entries'' = Inr (JArr (remove1 e0 es))" by simp
  qed
  show ?thesis
    by (rule exI [of _ ?data]) (intro conjI run step new frame noop one)
qed


theorem delete_journal_entry_exact_witness:
  "delete_entry
     (JObj [(''journal_entries'',
             JArr [journal_entry ''1b4e28ba'' ''2024-03-08'' ''Slow start'' ''Ask earlier''
                     [CHR 0xF0, CHR 0x9F, CHR 0x98, CHR 0x90] [''Struggle''] ''alice'',
                   journal_entry ''6fa459ea'' ''2024-03-09'' ''Pairing helped'' ''Explain aloud''
                     [CHR 0xF0, CHR 0x9F, CHR 0x98, CHR 0x8A] [''Learning'', ''Challenge''] ''bob'',
                   journal_entry ''9c858901'' ''2024-03-10'' ''Solved it'' ''Keep notes''
                     [CHR 0xF0, CHR 0x9F, CHR 0x98, CHR 0x81] [''Breakthrough''] ''alice'']),
            (''users'', JObj [])])
     ''6fa459ea''
   = Inr (JObj [(''journal_entries'',
             JArr [journal_entry ''1b4e28ba'' ''2024-03-08'' ''Slow start'' ''Ask earlier''
                     [CHR 0xF0, CHR 0x9F, CHR 0x98, CHR 0x90] [''Struggle''] ''alice'',
                   journal_entry ''9c858901'' ''2024-03-10'' ''Solved it'' ''Keep notes''
                     [CHR 0xF0, CHR 0x9F, CHR 0x98, CHR 0x81] [''Breakthrough''] ''alice'']),
            (''users'', JObj [])])"
proof -
  let ?e1 = "journal_entry ''1b4e28ba'' ''2024-03-08'' ''Slow start'' ''Ask earlier''
               [CHR 0xF0, CHR 0x9F, CHR 0x98, CHR 0x90] [''Struggle''] ''alice''"
  let ?e2 = "journal_entry ''6fa459ea'' ''2024-03-09'' ''Pairing helped'' ''Explain aloud''
               [CHR 0xF0, CHR 0x9F, CHR 0x98, CHR 0x8A] [''Learning'', ''Challenge''] ''bob''"
  let ?e3 = "journal_entry ''9c858901'' ''2024-03-10'' ''Solved it'' ''Keep notes''
               [CHR 0xF0, CHR 0x9F, CHR 0x98, CHR 0x81] [''Breakthrough''] ''alice''"
  let ?data = "JObj [(''journal_entries'', JArr [?e1, ?e2, ?e3]), (''users'', JObj [])]"
  have entries: "get_item ?data ''journal_entries'' = Inr (JArr [?e1, ?e2, ?e3])" by simp
  have ids: "\<forall>e \<in> set [?e1, ?e2, ?e3]. \<exists>i. get_item e ''id'' = Inr i"
    by (simp add: journal_entry_def)
  have member: "?e2 \<in> set [?e1, ?e2, ?e3]" by simp
  have hit: "get_item ?e2 ''id'' = Inr (JStr ''6fa459ea'')
             \<and> distinct (map (\<lambda>e. get_item e ''id'') [?e1, ?e2, ?e3])"
    by (simp add: journal_entry_def)
  have gone: "remove1 ?e2 [?e1, ?e2, ?e3] = [?e1, ?e3]" by (simp add: journal_entry_def)
  from delete_journal_entry_exact [OF entries ids, of "''6fa459ea''" "\<lambda>d. d" "\<lparr>authenticated = None, data_file = None\<rparr>"]
  obtain data' where run: "delete_entry ?data ''6fa459ea'' = Inr data'"
    and one: "\<forall>e0 \<in> set [?e1, ?e2, ?e3].
                 get_item e0 ''id'' = Inr (JStr ''6fa459ea'')
                 \<and> distinct (map (\<lambda>e. get_item e ''id'') [?e1, ?e2, ?e3]) \<longrightarrow>
                 get_item data' ''journal_entries'' = Inr (JArr (remove1 e0 [?e1, ?e2, ?e3]))"
    and frame: "\<forall>k. k \<noteq> ''journal_entries'' \<longrightarrow> get_item data' k = get_item ?data k"
    by blast
  from bspec [OF one member] hit
  have new: "get_item data' ''journal_entries'' = Inr (JArr [?e1, ?e3])"
    by (simp only: gone)
  have "delete_entry ?data ''6fa459ea''
          = Inr (JObj [(''journal_entries'', JArr [?e1, ?e3]), (''users'', JObj [])])"
    by (simp add: delete_entry_def journal_entry_def)
  with run new show ?thesis by simp
qed

end
